theory Spec2Isabelle
  imports Main
begin

section \<open>Data model\<close>

text \<open>
  The module \<^verbatim>\<open>apps/exploration/models.py\<close> defines one storage model, \<^verbatim>\<open>Exploration\<close>,
  on top of a datastore ORM. An exploration refers to its states by id and to its editors
  by user object. The datastore, the \<^verbatim>\<open>State\<close> model and the configuration constant
  \<^verbatim>\<open>feconf.DEMO_EXPLORATIONS\<close> live outside the file; they appear here as an explicit store
  and as parameters.
\<close>

text \<open>A \<^verbatim>\<open>users.User\<close> object, compared by its e-mail address.\<close>

datatype user = User string

text \<open>The \<^verbatim>\<open>Parameter\<close> model is opaque to this module: it is only stored.\<close>

typedecl parameter

text \<open>The fields of a \<^verbatim>\<open>State\<close> that this module reads or writes: its key id and its name.\<close>

record state =
  state_id :: string
  name :: string

text \<open>
  The properties of \<^verbatim>\<open>Exploration\<close>, in declaration order, together with the key id that
  the base model exposes as \<^verbatim>\<open>self.id\<close>. \<^verbatim>\<open>category\<close> is required and \<^verbatim>\<open>is_public\<close> has a
  default, so neither is ever absent; \<^verbatim>\<open>image_id\<close> is optional.
\<close>

record exploration =
  exp_id :: string
  category :: string
  title :: string
  state_ids :: "string list"
  parameters :: "parameter list"
  is_public :: bool
  image_id :: "string option"
  editors :: "user list"

text \<open>
  The datastore. The \<^verbatim>\<open>State\<close> kind maps a key id to the stored \<^verbatim>\<open>name\<close> property, so an
  entity read back always carries the key it was read under. The \<^verbatim>\<open>Exploration\<close> kind is
  the list of stored entities, which is what a query iterates over.
\<close>

record datastore =
  states :: "string \<rightharpoonup> string"
  explorations :: "exploration list"

text \<open>
  Every exception the modelled code can raise. \<^verbatim>\<open>Exception\<close> is Python's generic exception
  class, raised directly by \<^verbatim>\<open>add_state\<close>.
\<close>

datatype error =
    ModelValidationError string
  | EntityNotFoundError string
  | AttributeError
  | IndexError
  | Exception string

text \<open>
  The values that \<^verbatim>\<open>user and ...\<close> can evaluate to: the falsy operand itself
  (\<^verbatim>\<open>None\<close>) or the boolean on the right.
\<close>

datatype pyval = PyNone | PyBool bool

fun truthy :: "pyval \<Rightarrow> bool" where
  "truthy PyNone = False"
| "truthy (PyBool b) = b"

section \<open>The datastore interface used by the module\<close>

text \<open>
  Modelled from the spec: \<^verbatim>\<open>State.get\<close> (inherited from \<^verbatim>\<open>IdModel\<close>, which is not part of
  this file) resolves a state id to an existing State. With \<^verbatim>\<open>strict=False\<close> an id that does
  not resolve yields \<^verbatim>\<open>None\<close>, which is what the validation hook tests; with the default
  \<^verbatim>\<open>strict\<close> it raises.
\<close>

definition State_get :: "datastore \<Rightarrow> string \<Rightarrow> bool \<Rightarrow> error + state option" where
  "State_get ds sid strict =
     (case states ds sid of
        Some nm \<Rightarrow> Inr (Some \<lparr>state_id = sid, name = nm\<rparr>)
      | None \<Rightarrow> if strict then Inl (EntityNotFoundError sid) else Inr None)"

text \<open>
  Modelled from the spec: \<^verbatim>\<open>State.put\<close> and \<^verbatim>\<open>State.delete\<close> (not part of this file) store
  the entity under its key id and remove the entity with that key id.
\<close>

definition State_put :: "datastore \<Rightarrow> state \<Rightarrow> datastore" where
  "State_put ds s = ds\<lparr>states := (states ds)(state_id s \<mapsto> name s)\<rparr>"

definition State_delete :: "datastore \<Rightarrow> state \<Rightarrow> datastore" where
  "State_delete ds s = ds\<lparr>states := (states ds)(state_id s := None)\<rparr>"

section \<open>Validation\<close>

text \<open>
  \<^verbatim>\<open>str.isdigit\<close> on a byte string: non-empty and every character an ASCII digit;
  \<^verbatim>\<open>int\<close> of such a string is its decimal value.
\<close>

definition digit_chars :: "char list" where
  "digit_chars = ''0123456789''"

definition isdigit :: "string \<Rightarrow> bool" where
  "isdigit s = (s \<noteq> [] \<and> list_all (\<lambda>c. c \<in> set digit_chars) s)"

definition digit_value :: "char \<Rightarrow> int" where
  "digit_value c = int (of_char c) - 48"

definition int_of_str :: "string \<Rightarrow> int" where
  "int_of_str s = foldl (\<lambda>acc c. 10 * acc + digit_value c) 0 s"

text \<open>
  \<^verbatim>\<open>is_demo\<close>: the id is a number below \<^verbatim>\<open>len(feconf.DEMO_EXPLORATIONS)\<close>. The length of
  that configuration list is the parameter \<open>n_demo\<close>.
\<close>

definition is_demo :: "nat \<Rightarrow> exploration \<Rightarrow> bool" where
  "is_demo n_demo e =
     (isdigit (exp_id e) \<and> (0 \<le> int_of_str (exp_id e) \<and> int_of_str (exp_id e) < int n_demo))"

text \<open>The loop of the hook over \<^verbatim>\<open>self.state_ids\<close>: it raises at the first id that does not resolve.\<close>

fun check_state_ids :: "datastore \<Rightarrow> string list \<Rightarrow> error + unit" where
  "check_state_ids ds [] = Inr ()"
| "check_state_ids ds (sid # rest) =
     (case State_get ds sid False of
        Inl err \<Rightarrow> Inl err
      | Inr None \<Rightarrow> Inl (ModelValidationError ''Invalid state_id %s.'')
      | Inr (Some s) \<Rightarrow> check_state_ids ds rest)"

definition pre_put_hook :: "nat \<Rightarrow> datastore \<Rightarrow> exploration \<Rightarrow> error + unit" where
  "pre_put_hook n_demo ds e =
     (if state_ids e = [] then Inl (ModelValidationError ''This exploration has no states.'')
      else
        (case check_state_ids ds (state_ids e) of
           Inl err \<Rightarrow> Inl err
         | Inr u \<Rightarrow>
             if \<not> is_demo n_demo e \<and> editors e = []
             then Inl (ModelValidationError ''This exploration has no editors.'')
             else Inr ()))"

section \<open>Persistence\<close>

text \<open>
  Modelled from the spec: \<^verbatim>\<open>put\<close> (inherited from \<^verbatim>\<open>IdModel\<close>, not part of this file) runs
  the pre-save hook synchronously; when the hook raises nothing is written, otherwise the
  entity is stored under its key id, replacing an entity of the same id.
\<close>

definition Exploration_put :: "nat \<Rightarrow> datastore \<Rightarrow> exploration \<Rightarrow> (error + unit) \<times> datastore" where
  "Exploration_put n_demo ds e =
     (case pre_put_hook n_demo ds e of
        Inl err \<Rightarrow> (Inl err, ds)
      | Inr u \<Rightarrow>
          (Inr (),
           ds\<lparr>explorations := filter (\<lambda>x. exp_id x \<noteq> exp_id e) (explorations ds) @ [e]\<rparr>))"

text \<open>
  Modelled from the spec: the base model's \<^verbatim>\<open>delete\<close> (not part of this file), reached
  through \<^verbatim>\<open>super\<close>, removes the entity with this key id.
\<close>

definition Model_delete :: "datastore \<Rightarrow> exploration \<Rightarrow> datastore" where
  "Model_delete ds e =
     ds\<lparr>explorations := filter (\<lambda>x. exp_id x \<noteq> exp_id e) (explorations ds)\<rparr>"

section \<open>Queries\<close>

definition get_all_explorations :: "datastore \<Rightarrow> exploration list" where
  "get_all_explorations ds = explorations ds"

definition get_public_explorations :: "datastore \<Rightarrow> exploration list" where
  "get_public_explorations ds = filter (\<lambda>e. is_public e = True) (get_all_explorations ds)"

text \<open>
  The filter \<^verbatim>\<open>cls.editors == user\<close> on a repeated property matches an entity when one
  of the stored values equals the operand; \<^verbatim>\<open>None\<close> is never a stored editor.
\<close>

definition editors_eq :: "exploration \<Rightarrow> user option \<Rightarrow> bool" where
  "editors_eq e u = (case u of None \<Rightarrow> False | Some x \<Rightarrow> x \<in> set (editors e))"

definition get_viewable_explorations :: "datastore \<Rightarrow> user option \<Rightarrow> exploration list" where
  "get_viewable_explorations ds u =
     filter (\<lambda>e. is_public e = True \<or> editors_eq e u) (get_all_explorations ds)"

definition get_exploration_count :: "datastore \<Rightarrow> nat" where
  "get_exploration_count ds = length (get_all_explorations ds)"

section \<open>Instance methods\<close>

text \<open>
  The loop of \<^verbatim>\<open>delete\<close>: each id is resolved with the default (strict) \<^verbatim>\<open>State.get\<close> and
  the State is deleted. Deletions made before an exception stay made.
\<close>

fun delete_states :: "datastore \<Rightarrow> string list \<Rightarrow> (error + unit) \<times> datastore" where
  "delete_states ds [] = (Inr (), ds)"
| "delete_states ds (sid # rest) =
     (case State_get ds sid True of
        Inl err \<Rightarrow> (Inl err, ds)
      | Inr None \<Rightarrow> (Inl AttributeError, ds)
      | Inr (Some s) \<Rightarrow> delete_states (State_delete ds s) rest)"

definition delete :: "datastore \<Rightarrow> exploration \<Rightarrow> (error + unit) \<times> datastore" where
  "delete ds e =
     (case delete_states ds (state_ids e) of
        (Inl err, ds') \<Rightarrow> (Inl err, ds')
      | (Inr u, ds') \<Rightarrow> (Inr (), Model_delete ds' e))"

definition init_state :: "datastore \<Rightarrow> exploration \<Rightarrow> error + state" where
  "init_state ds e =
     (case state_ids e of
        [] \<Rightarrow> Inl IndexError
      | sid # rest \<Rightarrow>
          (case State_get ds sid True of
             Inl err \<Rightarrow> Inl err
           | Inr None \<Rightarrow> Inl AttributeError
           | Inr (Some s) \<Rightarrow> Inr s))"

text \<open>
  The list comprehension of \<^verbatim>\<open>_has_state_named\<close>: it resolves every id (strictly) and
  compares the names; \<^verbatim>\<open>any\<close> is then taken over the finished list.
\<close>

fun name_matches :: "datastore \<Rightarrow> string \<Rightarrow> string list \<Rightarrow> error + bool list" where
  "name_matches ds state_name [] = Inr []"
| "name_matches ds state_name (sid # rest) =
     (case State_get ds sid True of
        Inl err \<Rightarrow> Inl err
      | Inr None \<Rightarrow> Inl AttributeError
      | Inr (Some s) \<Rightarrow>
          (case name_matches ds state_name rest of
             Inl err \<Rightarrow> Inl err
           | Inr bs \<Rightarrow> Inr ((name s = state_name) # bs)))"

definition has_state_named :: "datastore \<Rightarrow> exploration \<Rightarrow> string \<Rightarrow> error + bool" where
  "has_state_named ds e state_name =
     (case name_matches ds state_name (state_ids e) of
        Inl err \<Rightarrow> Inl err
      | Inr bs \<Rightarrow> Inr (True \<in> set bs))"

text \<open>\<^verbatim>\<open>user and (user in self.editors)\<close>: a user object is truthy, \<^verbatim>\<open>None\<close> is not.\<close>

definition is_editable_by :: "exploration \<Rightarrow> user option \<Rightarrow> error + pyval" where
  "is_editable_by e u =
     (case u of
        None \<Rightarrow> Inr PyNone
      | Some x \<Rightarrow> Inr (PyBool (x \<in> set (editors e))))"

text \<open>
  \<^verbatim>\<open>user and user == self.editors[0]\<close>: the index is evaluated only for a truthy user,
  and raises on an empty list.
\<close>

definition is_owned_by :: "exploration \<Rightarrow> user option \<Rightarrow> error + pyval" where
  "is_owned_by e u =
     (case u of
        None \<Rightarrow> Inr PyNone
      | Some x \<Rightarrow>
          (case editors e of
             [] \<Rightarrow> Inl IndexError
           | first # rest \<Rightarrow> Inr (PyBool (x = first))))"

text \<open>
  \<^verbatim>\<open>state_id or State.get_new_id(state_name)\<close>: the given id when it is truthy (neither
  \<^verbatim>\<open>None\<close> nor the empty string), otherwise a generated one. \<^verbatim>\<open>State.get_new_id\<close> is not
  part of this file and is the parameter \<open>get_new_id\<close>.
\<close>

definition choose_state_id :: "(string \<Rightarrow> error + string) \<Rightarrow> string \<Rightarrow> string option \<Rightarrow> error + string" where
  "choose_state_id get_new_id state_name sid =
     (case sid of
        None \<Rightarrow> get_new_id state_name
      | Some i \<Rightarrow> if i = [] then get_new_id state_name else Inr i)"

text \<open>
  \<^verbatim>\<open>add_state\<close> returns the outcome together with the exploration object (mutated in
  place by \<^verbatim>\<open>append\<close>) and the datastore as they are when the call ends, normally or not.
\<close>

definition add_state ::
  "nat \<Rightarrow> (string \<Rightarrow> error + string) \<Rightarrow> datastore \<Rightarrow> exploration \<Rightarrow> string \<Rightarrow> string option
     \<Rightarrow> (error + state) \<times> exploration \<times> datastore" where
  "add_state n_demo get_new_id ds e state_name sid =
     (case has_state_named ds e state_name of
        Inl err \<Rightarrow> (Inl err, e, ds)
      | Inr True \<Rightarrow> (Inl (Exception (''Duplicate state name '' @ state_name)), e, ds)
      | Inr False \<Rightarrow>
          (case choose_state_id get_new_id state_name sid of
             Inl err \<Rightarrow> (Inl err, e, ds)
           | Inr i \<Rightarrow>
               (let new_state = \<lparr>state_id = i, name = state_name\<rparr>;
                    ds1 = State_put ds new_state;
                    e1 = e\<lparr>state_ids := state_ids e @ [state_id new_state]\<rparr>
                in (case Exploration_put n_demo ds1 e1 of
                      (Inl err, ds2) \<Rightarrow> (Inl err, e1, ds2)
                    | (Inr u, ds2) \<Rightarrow> (Inr new_state, e1, ds2)))))"

text \<open>\<^verbatim>\<open>add_editor\<close> appends to the in-memory list and does not touch the datastore.\<close>

definition add_editor :: "datastore \<Rightarrow> exploration \<Rightarrow> user \<Rightarrow> exploration \<times> datastore" where
  "add_editor ds e editor = (e\<lparr>editors := editors e @ [editor]\<rparr>, ds)"

section \<open>The methods of the model and what they raise\<close>

text \<open>
  One constructor per method of \<^verbatim>\<open>Exploration\<close> (with \<^verbatim>\<open>put\<close>, which the class inherits and
  \<^verbatim>\<open>add_state\<close> calls). \<open>raised\<close> gives the exception a call ends with, if any. The query
  methods, \<^verbatim>\<open>is_demo\<close> and \<^verbatim>\<open>add_editor\<close> contain no \<^verbatim>\<open>raise\<close> and no operation that can
  fail, so their embeddings return plain values, which is a normal return.
\<close>

datatype method_call =
    Call_pre_put_hook
  | Call_put
  | Call_get_all_explorations
  | Call_get_public_explorations
  | Call_get_viewable_explorations "user option"
  | Call_get_exploration_count
  | Call_delete
  | Call_init_state
  | Call_is_demo
  | Call_has_state_named string
  | Call_is_editable_by "user option"
  | Call_is_owned_by "user option"
  | Call_add_state string "string option"
  | Call_add_editor user

fun error_of :: "error + 'a \<Rightarrow> error option" where
  "error_of (Inl err) = Some err"
| "error_of (Inr v) = None"

fun raised ::
  "nat \<Rightarrow> (string \<Rightarrow> error + string) \<Rightarrow> datastore \<Rightarrow> exploration \<Rightarrow> method_call \<Rightarrow> error option" where
  "raised n_demo get_new_id ds e Call_pre_put_hook = error_of (pre_put_hook n_demo ds e)"
| "raised n_demo get_new_id ds e Call_put = error_of (fst (Exploration_put n_demo ds e))"
| "raised n_demo get_new_id ds e Call_get_all_explorations = error_of (Inr (get_all_explorations ds))"
| "raised n_demo get_new_id ds e Call_get_public_explorations =
     error_of (Inr (get_public_explorations ds))"
| "raised n_demo get_new_id ds e (Call_get_viewable_explorations u) =
     error_of (Inr (get_viewable_explorations ds u))"
| "raised n_demo get_new_id ds e Call_get_exploration_count =
     error_of (Inr (get_exploration_count ds))"
| "raised n_demo get_new_id ds e Call_delete = error_of (fst (delete ds e))"
| "raised n_demo get_new_id ds e Call_init_state = error_of (init_state ds e)"
| "raised n_demo get_new_id ds e Call_is_demo = error_of (Inr (is_demo n_demo e))"
| "raised n_demo get_new_id ds e (Call_has_state_named state_name) =
     error_of (has_state_named ds e state_name)"
| "raised n_demo get_new_id ds e (Call_is_editable_by u) = error_of (is_editable_by e u)"
| "raised n_demo get_new_id ds e (Call_is_owned_by u) = error_of (is_owned_by e u)"
| "raised n_demo get_new_id ds e (Call_add_state state_name sid) =
     error_of (fst (add_state n_demo get_new_id ds e state_name sid))"
| "raised n_demo get_new_id ds e (Call_add_editor editor) =
     error_of (Inr (add_editor ds e editor))"

section \<open>Example data\<close>

text \<open>
  A stored, valid exploration with one state and one editor, the datastore holding it, and
  an id generator; the theorems below are instantiated at these.
\<close>

definition ex_exploration :: exploration where
  "ex_exploration = \<lparr>exp_id = ''abc'', category = ''Math'', title = ''Fractions'',
     state_ids = [''s1''], parameters = [], is_public = False, image_id = None,
     editors = [User ''ann@example.org'']\<rparr>"

definition ex_datastore :: datastore where
  "ex_datastore = \<lparr>states = [''s1'' \<mapsto> ''Intro''], explorations = [ex_exploration]\<rparr>"

definition ex_get_new_id :: "string \<Rightarrow> error + string" where
  "ex_get_new_id state_name = Inr (''id_'' @ state_name)"

text \<open>An exploration object that has just been constructed: no states and no editors yet.\<close>

definition draft_exploration :: exploration where
  "draft_exploration = \<lparr>exp_id = ''xyz'', category = ''Math'', title = ''New exploration'',
     state_ids = [], parameters = [], is_public = False, image_id = None, editors = []\<rparr>"

text \<open>A stored exploration one of whose states (\<^verbatim>\<open>s9\<close>) is no longer in the datastore.\<close>

definition stale_exploration :: exploration where
  "stale_exploration = ex_exploration\<lparr>state_ids := [''s1'', ''s9'']\<rparr>"

definition stale_datastore :: datastore where
  "stale_datastore = \<lparr>states = [''s1'' \<mapsto> ''Intro''], explorations = [stale_exploration]\<rparr>"

text \<open>A public demo exploration (no editors), and a datastore with two explorations.\<close>

definition public_exploration :: exploration where
  "public_exploration = \<lparr>exp_id = ''0'', category = ''Demo'', title = ''Welcome'',
     state_ids = [''s1''], parameters = [], is_public = True, image_id = None, editors = []\<rparr>"

definition two_datastore :: datastore where
  "two_datastore = \<lparr>states = [''s1'' \<mapsto> ''Intro''],
     explorations = [ex_exploration, public_exploration]\<rparr>"

lemmas ex_defs = ex_exploration_def ex_datastore_def ex_get_new_id_def

lemmas demo_defs = is_demo_def isdigit_def digit_chars_def int_of_str_def digit_value_def

section \<open>The validation hook\<close>

lemma check_state_ids_Inr:
  "(check_state_ids ds xs = Inr ()) = list_all (\<lambda>sid. states ds sid \<noteq> None) xs"
  by (induction xs) (auto simp: State_get_def split: option.splits)

lemma check_state_ids_Inl:
  "check_state_ids ds xs = Inl err \<Longrightarrow> err = ModelValidationError ''Invalid state_id %s.''"
  by (induction xs) (auto simp: State_get_def split: option.splits)

text \<open>
  Claim C1. The pre-put hook raises a \<^verbatim>\<open>ModelValidationError\<close> exactly when the list of
  state ids is empty, or some id in it does not resolve to a State, or the exploration is
  not a demo and has no editors; exactly when none of the three holds it returns normally.
\<close>

theorem pre_put_hook_raises_iff:
  "((\<exists>msg. pre_put_hook n_demo ds e = Inl (ModelValidationError msg)) \<longleftrightarrow>
      (state_ids e = [] \<or> (\<exists>sid \<in> set (state_ids e). State_get ds sid False = Inr None)
        \<or> (\<not> is_demo n_demo e \<and> editors e = []))) \<and>
   (pre_put_hook n_demo ds e = Inr () \<longleftrightarrow>
      \<not> (state_ids e = [] \<or> (\<exists>sid \<in> set (state_ids e). State_get ds sid False = Inr None)
        \<or> (\<not> is_demo n_demo e \<and> editors e = [])))"
proof -
  have res: "(\<exists>sid \<in> set (state_ids e). State_get ds sid False = Inr None) \<longleftrightarrow>
      \<not> list_all (\<lambda>sid. states ds sid \<noteq> None) (state_ids e)"
    by (auto simp: State_get_def list_all_iff split: option.splits)
  show ?thesis
  proof (cases "check_state_ids ds (state_ids e)")
    case (Inl err)
    then have "err = ModelValidationError ''Invalid state_id %s.''"
      by (rule check_state_ids_Inl)
    moreover from Inl have "\<not> list_all (\<lambda>sid. states ds sid \<noteq> None) (state_ids e)"
      using check_state_ids_Inr [of ds "state_ids e"] by simp
    ultimately show ?thesis using Inl
      by (simp add: pre_put_hook_def res)
  next
    case (Inr u)
    then have "list_all (\<lambda>sid. states ds sid \<noteq> None) (state_ids e)"
      using check_state_ids_Inr [of ds "state_ids e"] by simp
    then show ?thesis using Inr
      by (simp add: pre_put_hook_def res)
  qed
qed

text \<open>
  The stored example passes; without its editor it is refused; a demo exploration
  (id \<^verbatim>\<open>1\<close> of two demos) passes without editors.
\<close>

theorem pre_put_hook_raises_iff_witness:
  "pre_put_hook 2 ex_datastore ex_exploration = Inr () \<and>
   (\<exists>msg. pre_put_hook 2 ex_datastore (ex_exploration\<lparr>editors := []\<rparr>)
      = Inl (ModelValidationError msg)) \<and>
   pre_put_hook 2 ex_datastore (ex_exploration\<lparr>exp_id := ''1'', editors := []\<rparr>) = Inr ()"
  using pre_put_hook_raises_iff [of 2 ex_datastore ex_exploration]
    pre_put_hook_raises_iff [of 2 ex_datastore "ex_exploration\<lparr>editors := []\<rparr>"]
    pre_put_hook_raises_iff [of 2 ex_datastore "ex_exploration\<lparr>exp_id := ''1'', editors := []\<rparr>"]
  by (simp add: ex_defs demo_defs State_get_def)

lemma pre_put_hook_Inl:
  "pre_put_hook n ds e = Inl err \<Longrightarrow> \<exists>msg. err = ModelValidationError msg"
  using check_state_ids_Inl [of ds "state_ids e"]
  by (auto simp: pre_put_hook_def split: if_splits sum.splits)

section \<open>Adding a state\<close>

text \<open>
  What the list comprehension of \<^verbatim>\<open>_has_state_named\<close> returns, in terms of the datastore: it
  fails at an id that does not resolve, and otherwise tells whether a referenced State
  carries the name.
\<close>

lemma name_matches_Inr:
  "name_matches ds nm xs = Inr bs \<Longrightarrow>
     list_all (\<lambda>sid. states ds sid \<noteq> None) xs \<and>
     (True \<in> set bs \<longleftrightarrow> (\<exists>sid \<in> set xs. states ds sid = Some nm))"
  by (induction xs arbitrary: bs)
     (auto simp: State_get_def split: option.splits sum.splits if_splits)

lemma name_matches_Inl:
  "name_matches ds nm xs = Inl err \<Longrightarrow> \<exists>sid \<in> set xs. states ds sid = None \<and> err = EntityNotFoundError sid"
  by (induction xs)
     (auto simp: State_get_def split: option.splits sum.splits if_splits)

lemma has_state_named_False:
  "has_state_named ds e nm = Inr False \<longleftrightarrow>
     (\<forall>sid \<in> set (state_ids e). \<exists>n. states ds sid = Some n \<and> n \<noteq> nm)"
proof (cases "name_matches ds nm (state_ids e)")
  case (Inl err)
  then obtain sid where "sid \<in> set (state_ids e)" "states ds sid = None"
    using name_matches_Inl by blast
  then have "\<not> (\<forall>sid \<in> set (state_ids e). \<exists>n. states ds sid = Some n \<and> n \<noteq> nm)"
    by force
  then show ?thesis using Inl by (simp add: has_state_named_def)
next
  case (Inr bs)
  from name_matches_Inr [OF Inr]
  have all: "\<forall>sid \<in> set (state_ids e). \<exists>n. states ds sid = Some n"
    and tr: "True \<in> set bs \<longleftrightarrow> (\<exists>sid \<in> set (state_ids e). states ds sid = Some nm)"
    by (auto simp: list_all_iff)
  have "True \<notin> set bs \<longleftrightarrow> (\<forall>sid \<in> set (state_ids e). \<exists>n. states ds sid = Some n \<and> n \<noteq> nm)"
    using all tr by fastforce
  then show ?thesis using Inr by (simp add: has_state_named_def)
qed

lemma has_state_named_contains:
  assumes "\<exists>sid \<in> set (state_ids e). states ds sid = Some nm"
  shows "has_state_named ds e nm \<noteq> Inr False"
  using assms unfolding has_state_named_False by fastforce

lemma has_state_named_Inl:
  "has_state_named ds e nm = Inl err \<Longrightarrow> \<exists>sid. err = EntityNotFoundError sid"
  using name_matches_Inl [of ds nm "state_ids e" err]
  by (auto simp: has_state_named_def split: sum.splits)

lemma choose_state_id_Inl:
  "choose_state_id g nm sid = Inl err \<Longrightarrow> g nm = Inl err"
  by (auto simp: choose_state_id_def split: option.splits if_splits)

lemma pre_put_hook_ok:
  "xs \<noteq> [] \<Longrightarrow> state_ids e = xs \<Longrightarrow> list_all (\<lambda>sid. states ds sid \<noteq> None) xs \<Longrightarrow>
     is_demo n e \<or> editors e \<noteq> [] \<Longrightarrow> pre_put_hook n ds e = Inr ()"
  using check_state_ids_Inr [of ds xs]
  by (auto simp: pre_put_hook_def split: sum.splits)

lemma is_demo_state_ids: "is_demo n (e\<lparr>state_ids := xs\<rparr>) = is_demo n e"
  by (simp add: is_demo_def)

lemma add_state_ok:
  assumes none: "has_state_named ds e nm = Inr False"
    and cid: "choose_state_id g nm sid = Inr i"
    and ed: "is_demo n e \<or> editors e \<noteq> []"
  shows "add_state n g ds e nm sid =
     (Inr \<lparr>state_id = i, name = nm\<rparr>,
      e\<lparr>state_ids := state_ids e @ [i]\<rparr>,
      ds\<lparr>states := (states ds)(i \<mapsto> nm),
         explorations := filter (\<lambda>x. exp_id x \<noteq> exp_id e) (explorations ds)
            @ [e\<lparr>state_ids := state_ids e @ [i]\<rparr>]\<rparr>)"
proof -
  let ?ds1 = "State_put ds \<lparr>state_id = i, name = nm\<rparr>"
  let ?e1 = "e\<lparr>state_ids := state_ids e @ [i]\<rparr>"
  from none have "list_all (\<lambda>sid. states ds sid \<noteq> None) (state_ids e)"
    by (auto simp: has_state_named_False list_all_iff)
  then have "list_all (\<lambda>sid. states ?ds1 sid \<noteq> None) (state_ids e @ [i])"
    by (auto simp: State_put_def list_all_iff)
  then have "pre_put_hook n ?ds1 ?e1 = Inr ()"
    using ed by (intro pre_put_hook_ok [where xs = "state_ids e @ [i]"]) (simp_all add: is_demo_state_ids)
  then show ?thesis using none cid
    by (simp add: add_state_def Exploration_put_def State_put_def Let_def)
qed

text \<open>
  Claim C3 does not hold as stated: where no state has the name, \<^verbatim>\<open>add_state\<close> can still
  raise. On a freshly constructed exploration that is not a demo and has no editors, the
  new State is persisted and appended, and the final \<^verbatim>\<open>put\<close> is refused by the validation
  hook, so the exploration is not committed and no State is returned.
\<close>

theorem add_state_refused_by_hook:
  "has_state_named ex_datastore draft_exploration ''Start'' = Inr False \<and>
   add_state 2 ex_get_new_id ex_datastore draft_exploration ''Start'' None
     = (Inl (ModelValidationError ''This exploration has no editors.''),
        draft_exploration\<lparr>state_ids := [''id_Start'']\<rparr>,
        ex_datastore\<lparr>states := [''s1'' \<mapsto> ''Intro'', ''id_Start'' \<mapsto> ''Start'']\<rparr>)"
  by (simp add: add_state_def has_state_named_def choose_state_id_def State_put_def
      Exploration_put_def pre_put_hook_def State_get_def Let_def demo_defs ex_defs
      draft_exploration_def)

text \<open>
  Claim C3, amended. \<^verbatim>\<open>add_state\<close> raises when a State referenced by the exploration
  already has the name. When every referenced State exists and none has the name, an id
  is available (the given one if it is non-empty, otherwise a generated one), and the
  exploration is a demo or has an editor, \<^verbatim>\<open>add_state\<close> persists a new State with that id and
  name, appends the id to \<^verbatim>\<open>state_ids\<close>, commits the exploration and returns the new State.
\<close>

theorem add_state_spec:
  "((\<exists>i \<in> set (state_ids e). states ds i = Some nm) \<longrightarrow>
      (\<exists>err. fst (add_state n g ds e nm sid) = Inl err)) \<and>
   ((\<forall>i \<in> set (state_ids e). \<exists>x. states ds i = Some x \<and> x \<noteq> nm) \<and>
    ((sid = Some new_id \<and> new_id \<noteq> []) \<or>
     ((sid = None \<or> sid = Some []) \<and> g nm = Inr new_id)) \<and>
    (is_demo n e \<or> editors e \<noteq> []) \<longrightarrow>
      add_state n g ds e nm sid =
        (Inr \<lparr>state_id = new_id, name = nm\<rparr>,
         e\<lparr>state_ids := state_ids e @ [new_id]\<rparr>,
         ds\<lparr>states := (states ds)(new_id \<mapsto> nm),
            explorations := filter (\<lambda>x. exp_id x \<noteq> exp_id e) (explorations ds)
              @ [e\<lparr>state_ids := state_ids e @ [new_id]\<rparr>]\<rparr>))"
proof (intro conjI impI)
  assume "\<exists>i \<in> set (state_ids e). states ds i = Some nm"
  then have "has_state_named ds e nm \<noteq> Inr False" by (rule has_state_named_contains)
  then show "\<exists>err. fst (add_state n g ds e nm sid) = Inl err"
    by (cases "has_state_named ds e nm") (auto simp: add_state_def)
next
  assume a: "(\<forall>i \<in> set (state_ids e). \<exists>x. states ds i = Some x \<and> x \<noteq> nm) \<and>
    ((sid = Some new_id \<and> new_id \<noteq> []) \<or>
     ((sid = None \<or> sid = Some []) \<and> g nm = Inr new_id)) \<and>
    (is_demo n e \<or> editors e \<noteq> [])"
  then have none: "has_state_named ds e nm = Inr False"
    by (simp add: has_state_named_False)
  from a have cid: "choose_state_id g nm sid = Inr new_id"
    by (auto simp: choose_state_id_def)
  from a have ed: "is_demo n e \<or> editors e \<noteq> []" by simp
  show "add_state n g ds e nm sid =
        (Inr \<lparr>state_id = new_id, name = nm\<rparr>,
         e\<lparr>state_ids := state_ids e @ [new_id]\<rparr>,
         ds\<lparr>states := (states ds)(new_id \<mapsto> nm),
            explorations := filter (\<lambda>x. exp_id x \<noteq> exp_id e) (explorations ds)
              @ [e\<lparr>state_ids := state_ids e @ [new_id]\<rparr>]\<rparr>)"
    by (rule add_state_ok [OF none cid ed])
qed

text \<open>
  The stored example: adding \<^verbatim>\<open>Intro\<close> again raises; adding \<^verbatim>\<open>End\<close> with a generated id
  succeeds.
\<close>

theorem add_state_spec_witness:
  "(\<exists>err. fst (add_state 2 ex_get_new_id ex_datastore ex_exploration ''Intro'' None) = Inl err) \<and>
   add_state 2 ex_get_new_id ex_datastore ex_exploration ''End'' None =
     (Inr \<lparr>state_id = ''id_End'', name = ''End''\<rparr>,
      ex_exploration\<lparr>state_ids := [''s1'', ''id_End'']\<rparr>,
      ex_datastore\<lparr>states := [''s1'' \<mapsto> ''Intro'', ''id_End'' \<mapsto> ''End''],
         explorations := [ex_exploration\<lparr>state_ids := [''s1'', ''id_End'']\<rparr>]\<rparr>)"
  using add_state_spec [where n = 2 and g = ex_get_new_id and ds = ex_datastore
      and e = ex_exploration and nm = "''Intro''" and sid = None]
    add_state_spec [where n = 2 and g = ex_get_new_id and ds = ex_datastore
      and e = ex_exploration and nm = "''End''" and sid = None and new_id = "''id_End''"]
  by (simp add: ex_defs)

text \<open>
  Claim C4. When \<^verbatim>\<open>add_state\<close> fails because a state with the given name exists, the
  call ends with the duplicate-name exception, the exploration object as it was
  (\<^verbatim>\<open>state_ids\<close> included) and the datastore as it was: no State is stored and the
  exploration is not committed.
\<close>

theorem add_state_duplicate_unchanged:
  "has_state_named ds e nm = Inr True \<Longrightarrow>
     add_state n g ds e nm sid = (Inl (Exception (''Duplicate state name '' @ nm)), e, ds)"
  by (simp add: add_state_def)

theorem add_state_duplicate_unchanged_witness:
  "has_state_named ex_datastore ex_exploration ''Intro'' = Inr True \<and>
   add_state 2 ex_get_new_id ex_datastore ex_exploration ''Intro'' (Some ''s2'')
     = (Inl (Exception ''Duplicate state name Intro''), ex_exploration, ex_datastore)"
proof -
  have h: "has_state_named ex_datastore ex_exploration ''Intro'' = Inr True"
    by (simp add: has_state_named_def State_get_def ex_defs)
  show ?thesis
    using h add_state_duplicate_unchanged [OF h, of 2 ex_get_new_id "Some ''s2''"] by simp
qed

section \<open>Errors\<close>

text \<open>
  Claim C2 does not hold as stated: \<^verbatim>\<open>add_state\<close> raises a generic \<^verbatim>\<open>Exception\<close>, which is
  not a validation error and does not come from the hook (the hook accepts the same
  exploration).
\<close>

theorem add_state_raises_generic_exception:
  "add_state 2 ex_get_new_id ex_datastore ex_exploration ''Intro'' None
     = (Inl (Exception ''Duplicate state name Intro''), ex_exploration, ex_datastore) \<and>
   pre_put_hook 2 ex_datastore ex_exploration = Inr ()"
  by (simp add: add_state_def has_state_named_def State_get_def pre_put_hook_def ex_defs)

lemma error_of_Some: "error_of r = Some err \<longleftrightarrow> r = Inl err"
  by (cases r) auto

lemma add_state_Inl:
  assumes a: "fst (add_state n g ds e nm sid) = Inl err"
  shows "(\<exists>msg. err = ModelValidationError msg) \<or>
      err = Exception (''Duplicate state name '' @ nm) \<or>
      (\<exists>i. err = EntityNotFoundError i) \<or> g nm = Inl err"
proof (cases "has_state_named ds e nm")
  case (Inl err')
  with a have "err' = err" by (simp add: add_state_def)
  with Inl show ?thesis using has_state_named_Inl by blast
next
  case (Inr b)
  show ?thesis
  proof (cases b)
    case True
    with Inr a show ?thesis by (simp add: add_state_def)
  next
    case False
    show ?thesis
    proof (cases "choose_state_id g nm sid")
      case (Inl err')
      with \<open>has_state_named ds e nm = Inr b\<close> False a have "err' = err"
        by (simp add: add_state_def)
      with Inl show ?thesis using choose_state_id_Inl by blast
    next
      case (Inr i)
      let ?ds1 = "State_put ds \<lparr>state_id = i, name = nm\<rparr>"
      let ?e1 = "e\<lparr>state_ids := state_ids e @ [i]\<rparr>"
      from a \<open>has_state_named ds e nm = Inr b\<close> False Inr
      have "pre_put_hook n ?ds1 ?e1 = Inl err"
        by (simp add: add_state_def Exploration_put_def Let_def split: sum.splits)
      then show ?thesis using pre_put_hook_Inl by blast
    qed
  qed
qed

lemma delete_states_Inl:
  "fst (delete_states ds xs) = Inl err \<Longrightarrow> \<exists>sid \<in> set xs. err = EntityNotFoundError sid"
  by (induction xs arbitrary: ds)
     (auto simp: State_get_def split: option.splits)

lemma delete_Inl:
  "fst (delete ds e) = Inl err \<Longrightarrow> \<exists>sid \<in> set (state_ids e). err = EntityNotFoundError sid"
  using delete_states_Inl [of ds "state_ids e" err]
  by (cases "delete_states ds (state_ids e)") (auto simp: delete_def split: sum.splits)

lemma init_state_Inl:
  "init_state ds e = Inl err \<Longrightarrow>
     (err = IndexError \<and> state_ids e = []) \<or>
     (\<exists>sid rest. state_ids e = sid # rest \<and> states ds sid = None \<and> err = EntityNotFoundError sid)"
  by (auto simp: init_state_def State_get_def split: list.splits option.splits)

lemma is_owned_by_Inl:
  "is_owned_by e u = Inl err \<Longrightarrow> err = IndexError \<and> editors e = [] \<and> u \<noteq> None"
  by (auto simp: is_owned_by_def split: option.splits list.splits)

lemma Exploration_put_Inl:
  "fst (Exploration_put n ds e) = Inl err \<Longrightarrow>
     pre_put_hook n ds e = Inl err \<and> snd (Exploration_put n ds e) = ds"
  by (auto simp: Exploration_put_def split: sum.splits)

text \<open>
  Claim C2, amended. Every error the pre-save hook raises is a \<^verbatim>\<open>ModelValidationError\<close>,
  and \<^verbatim>\<open>put\<close> raises exactly the hook's error, before anything is written. Other methods
  raise too. Each error of \<^verbatim>\<open>add_state\<close> is a validation error from the hook, the generic
  duplicate-name \<^verbatim>\<open>Exception\<close>, a not-found error for a state id that does not resolve, or
  the error of the id generator. \<^verbatim>\<open>is_owned_by\<close> raises only \<^verbatim>\<open>IndexError\<close>, on an empty
  editors list with a user that is not \<^verbatim>\<open>None\<close>. \<^verbatim>\<open>init_state\<close> raises \<^verbatim>\<open>IndexError\<close> on an empty
  state list or a not-found error. \<^verbatim>\<open>delete\<close> and \<^verbatim>\<open>_has_state_named\<close> raise only not-found
  errors. \<^verbatim>\<open>is_editable_by\<close>, \<^verbatim>\<open>add_editor\<close>, \<^verbatim>\<open>is_demo\<close> and the four query methods never
  raise.
\<close>

theorem error_taxonomy:
  "(raised n g ds e Call_pre_put_hook = Some err \<longrightarrow> (\<exists>msg. err = ModelValidationError msg)) \<and>
   (raised n g ds e Call_put = Some err \<longrightarrow>
      pre_put_hook n ds e = Inl err \<and> snd (Exploration_put n ds e) = ds) \<and>
   (raised n g ds e (Call_add_state nm sid) = Some err \<longrightarrow>
      (\<exists>msg. err = ModelValidationError msg) \<or>
      err = Exception (''Duplicate state name '' @ nm) \<or>
      (\<exists>i. err = EntityNotFoundError i) \<or>
      g nm = Inl err) \<and>
   (raised n g ds e (Call_is_owned_by u) = Some err \<longrightarrow>
      err = IndexError \<and> editors e = [] \<and> u \<noteq> None) \<and>
   (raised n g ds e Call_init_state = Some err \<longrightarrow>
      (err = IndexError \<and> state_ids e = []) \<or> (\<exists>i. err = EntityNotFoundError i)) \<and>
   (raised n g ds e Call_delete = Some err \<longrightarrow> (\<exists>i. err = EntityNotFoundError i)) \<and>
   (raised n g ds e (Call_has_state_named nm) = Some err \<longrightarrow> (\<exists>i. err = EntityNotFoundError i)) \<and>
   raised n g ds e (Call_is_editable_by u) = None \<and>
   raised n g ds e (Call_add_editor editor) = None \<and>
   raised n g ds e Call_is_demo = None \<and>
   raised n g ds e Call_get_all_explorations = None \<and>
   raised n g ds e Call_get_public_explorations = None \<and>
   raised n g ds e (Call_get_viewable_explorations u) = None \<and>
   raised n g ds e Call_get_exploration_count = None"
proof -
  have hook: "raised n g ds e Call_pre_put_hook = Some err \<longrightarrow> (\<exists>msg. err = ModelValidationError msg)"
    using pre_put_hook_Inl by (simp add: error_of_Some)
  have put: "raised n g ds e Call_put = Some err \<longrightarrow>
      pre_put_hook n ds e = Inl err \<and> snd (Exploration_put n ds e) = ds"
    using Exploration_put_Inl by (simp add: error_of_Some)
  have add: "raised n g ds e (Call_add_state nm sid) = Some err \<longrightarrow>
      (\<exists>msg. err = ModelValidationError msg) \<or>
      err = Exception (''Duplicate state name '' @ nm) \<or>
      (\<exists>i. err = EntityNotFoundError i) \<or> g nm = Inl err"
    using add_state_Inl [of n g ds e nm sid err] by (simp add: error_of_Some)
  have own: "raised n g ds e (Call_is_owned_by u) = Some err \<longrightarrow>
      err = IndexError \<and> editors e = [] \<and> u \<noteq> None"
    using is_owned_by_Inl [of e u err] by (simp add: error_of_Some)
  have init: "raised n g ds e Call_init_state = Some err \<longrightarrow>
      (err = IndexError \<and> state_ids e = []) \<or> (\<exists>i. err = EntityNotFoundError i)"
    using init_state_Inl [of ds e err] by (auto simp: error_of_Some)
  have del: "raised n g ds e Call_delete = Some err \<longrightarrow> (\<exists>i. err = EntityNotFoundError i)"
    using delete_Inl [of ds e err] by (auto simp: error_of_Some)
  have named: "raised n g ds e (Call_has_state_named nm) = Some err \<longrightarrow>
      (\<exists>i. err = EntityNotFoundError i)"
    using has_state_named_Inl [of ds e nm err] by (simp add: error_of_Some)
  have edit: "raised n g ds e (Call_is_editable_by u) = None"
    by (simp add: is_editable_by_def split: option.splits)
  show ?thesis using hook put add own init del named edit by simp
qed

text \<open>
  Each raising method at an input where it raises, and two of the methods that do not.
\<close>

theorem error_taxonomy_witness:
  "raised 2 ex_get_new_id ex_datastore draft_exploration Call_pre_put_hook
     = Some (ModelValidationError ''This exploration has no states.'') \<and>
   raised 2 ex_get_new_id ex_datastore draft_exploration Call_put
     = Some (ModelValidationError ''This exploration has no states.'') \<and>
   snd (Exploration_put 2 ex_datastore draft_exploration) = ex_datastore \<and>
   raised 2 ex_get_new_id ex_datastore ex_exploration (Call_add_state ''Intro'' None)
     = Some (Exception ''Duplicate state name Intro'') \<and>
   raised 2 ex_get_new_id ex_datastore public_exploration
       (Call_is_owned_by (Some (User ''ann@example.org''))) = Some IndexError \<and>
   editors public_exploration = [] \<and>
   raised 2 ex_get_new_id ex_datastore draft_exploration Call_init_state = Some IndexError \<and>
   state_ids draft_exploration = [] \<and>
   raised 2 ex_get_new_id stale_datastore stale_exploration Call_delete
     = Some (EntityNotFoundError ''s9'') \<and>
   raised 2 ex_get_new_id stale_datastore stale_exploration (Call_has_state_named ''Intro'')
     = Some (EntityNotFoundError ''s9'') \<and>
   raised 2 ex_get_new_id ex_datastore ex_exploration (Call_is_editable_by None) = None \<and>
   raised 2 ex_get_new_id ex_datastore ex_exploration (Call_add_editor (User ''bob@example.org''))
     = None"
proof -
  have h1: "raised 2 ex_get_new_id ex_datastore draft_exploration Call_pre_put_hook
     = Some (ModelValidationError ''This exploration has no states.'')"
    by (simp add: pre_put_hook_def draft_exploration_def)
  have h2: "raised 2 ex_get_new_id ex_datastore draft_exploration Call_put
     = Some (ModelValidationError ''This exploration has no states.'')"
    by (simp add: Exploration_put_def pre_put_hook_def draft_exploration_def)
  have h3: "raised 2 ex_get_new_id ex_datastore ex_exploration (Call_add_state ''Intro'' None)
     = Some (Exception ''Duplicate state name Intro'')"
    by (simp add: add_state_def has_state_named_def State_get_def ex_defs)
  have h4: "raised 2 ex_get_new_id ex_datastore public_exploration
       (Call_is_owned_by (Some (User ''ann@example.org''))) = Some IndexError"
    by (simp add: is_owned_by_def public_exploration_def)
  have h5: "raised 2 ex_get_new_id ex_datastore draft_exploration Call_init_state = Some IndexError"
    by (simp add: init_state_def draft_exploration_def)
  have h6: "raised 2 ex_get_new_id stale_datastore stale_exploration Call_delete
     = Some (EntityNotFoundError ''s9'')"
    by (simp add: delete_def State_get_def State_delete_def stale_datastore_def
        stale_exploration_def)
  have h7: "raised 2 ex_get_new_id stale_datastore stale_exploration (Call_has_state_named ''Intro'')
     = Some (EntityNotFoundError ''s9'')"
    by (simp add: has_state_named_def State_get_def stale_datastore_def stale_exploration_def)
  note t1 = error_taxonomy [where n = 2 and g = ex_get_new_id and ds = ex_datastore
      and e = draft_exploration
      and err = "ModelValidationError ''This exploration has no states.''"]
  note t2 = error_taxonomy [where n = 2 and g = ex_get_new_id and ds = ex_datastore
      and e = public_exploration and err = IndexError
      and u = "Some (User ''ann@example.org'')"]
  note t3 = error_taxonomy [where n = 2 and g = ex_get_new_id and ds = ex_datastore
      and e = draft_exploration and err = IndexError]
  note t4 = error_taxonomy [where n = 2 and g = ex_get_new_id and ds = ex_datastore
      and e = ex_exploration and u = None and editor = "User ''bob@example.org''"]
  have c2: "snd (Exploration_put 2 ex_datastore draft_exploration) = ex_datastore"
    using t1 h2 by blast
  have c4: "editors public_exploration = []"
    using t2 h4 by blast
  have c5: "state_ids draft_exploration = []"
    using t3 h5 by blast
  have c8: "raised 2 ex_get_new_id ex_datastore ex_exploration (Call_is_editable_by None) = None"
    using t4 by blast
  have c9: "raised 2 ex_get_new_id ex_datastore ex_exploration
      (Call_add_editor (User ''bob@example.org'')) = None"
    using t4 by blast
  show ?thesis using h1 h2 h3 h4 h5 h6 h7 c2 c4 c5 c8 c9 by simp
qed

section \<open>Deleting an exploration\<close>

lemma delete_states_ok:
  "distinct xs \<Longrightarrow> list_all (\<lambda>sid. states ds sid \<noteq> None) xs \<Longrightarrow>
     delete_states ds xs = (Inr (), ds\<lparr>states := (\<lambda>k. if k \<in> set xs then None else states ds k)\<rparr>)"
proof (induction xs arbitrary: ds)
  case Nil
  then show ?case by simp
next
  case (Cons x xs)
  let ?ds1 = "ds\<lparr>states := (states ds)(x := None)\<rparr>"
  from Cons.prems obtain nm where nm: "states ds x = Some nm" by auto
  from Cons.prems have d: "distinct xs" and nin: "x \<notin> set xs" by simp_all
  from Cons.prems nin have "list_all (\<lambda>sid. states ?ds1 sid \<noteq> None) xs"
    by (auto simp: list_all_iff)
  from Cons.IH [OF d this]
  have "delete_states ?ds1 xs
      = (Inr (), ?ds1\<lparr>states := (\<lambda>k. if k \<in> set xs then None else states ?ds1 k)\<rparr>)" .
  moreover have "(\<lambda>k. if k \<in> set xs then None else states ?ds1 k)
      = (\<lambda>k. if k \<in> set (x # xs) then None else states ds k)"
    by (rule ext) simp
  ultimately show ?case using nm
    by (simp add: State_get_def State_delete_def)
qed

lemma delete_states_explorations:
  "explorations (snd (delete_states ds xs)) = explorations ds"
  by (induction xs arbitrary: ds)
     (auto simp: State_get_def State_delete_def split: option.splits)

lemma delete_states_fail:
  "\<not> (distinct xs \<and> list_all (\<lambda>sid. states ds sid \<noteq> None) xs) \<Longrightarrow>
     \<exists>sid. fst (delete_states ds xs) = Inl (EntityNotFoundError sid)"
proof (induction xs arbitrary: ds)
  case Nil
  then show ?case by simp
next
  case (Cons x xs)
  show ?case
  proof (cases "states ds x")
    case None
    then show ?thesis by (simp add: State_get_def)
  next
    case (Some nm)
    let ?ds1 = "ds\<lparr>states := (states ds)(x := None)\<rparr>"
    from Cons.prems Some
    have "\<not> (distinct xs \<and> list_all (\<lambda>sid. states ?ds1 sid \<noteq> None) xs)"
      by (auto simp: list_all_iff)
    from Cons.IH [OF this] show ?thesis using Some
      by (simp add: State_get_def State_delete_def)
  qed
qed

text \<open>
  Claim C5 does not hold as stated: when an id in \<^verbatim>\<open>state_ids\<close> does not resolve, the
  strict lookup raises inside the loop; the States before it are gone and the exploration
  record is still stored.
\<close>

theorem delete_aborts_on_missing_state:
  "delete stale_datastore stale_exploration
     = (Inl (EntityNotFoundError ''s9''),
        \<lparr>states = Map.empty, explorations = [stale_exploration]\<rparr>)"
  by (simp add: delete_def State_get_def State_delete_def stale_datastore_def
      stale_exploration_def)

text \<open>
  Claim C5, amended. When the ids in \<^verbatim>\<open>state_ids\<close> are pairwise distinct and each resolves
  to a State, \<^verbatim>\<open>delete\<close> removes every one of those States and then the exploration record.
  Otherwise it raises a not-found error and the exploration record stays.
\<close>

theorem delete_spec:
  "(distinct (state_ids e) \<and> (\<forall>sid \<in> set (state_ids e). states ds sid \<noteq> None) \<longrightarrow>
      delete ds e =
        (Inr (),
         ds\<lparr>states := (\<lambda>k. if k \<in> set (state_ids e) then None else states ds k),
            explorations := filter (\<lambda>x. exp_id x \<noteq> exp_id e) (explorations ds)\<rparr>)) \<and>
   (\<not> (distinct (state_ids e) \<and> (\<forall>sid \<in> set (state_ids e). states ds sid \<noteq> None)) \<longrightarrow>
      (\<exists>sid. fst (delete ds e) = Inl (EntityNotFoundError sid)) \<and>
      explorations (snd (delete ds e)) = explorations ds)"
proof (intro conjI impI)
  assume "distinct (state_ids e) \<and> (\<forall>sid \<in> set (state_ids e). states ds sid \<noteq> None)"
  then have "delete_states ds (state_ids e)
      = (Inr (), ds\<lparr>states := (\<lambda>k. if k \<in> set (state_ids e) then None else states ds k)\<rparr>)"
    by (intro delete_states_ok) (simp_all add: list_all_iff)
  then show "delete ds e =
        (Inr (),
         ds\<lparr>states := (\<lambda>k. if k \<in> set (state_ids e) then None else states ds k),
            explorations := filter (\<lambda>x. exp_id x \<noteq> exp_id e) (explorations ds)\<rparr>)"
    by (simp add: delete_def Model_delete_def)
next
  assume "\<not> (distinct (state_ids e) \<and> (\<forall>sid \<in> set (state_ids e). states ds sid \<noteq> None))"
  then have "\<not> (distinct (state_ids e) \<and> list_all (\<lambda>sid. states ds sid \<noteq> None) (state_ids e))"
    by (simp add: list_all_iff)
  from delete_states_fail [OF this]
  obtain sid where f: "fst (delete_states ds (state_ids e)) = Inl (EntityNotFoundError sid)" ..
  then have "fst (delete ds e) = Inl (EntityNotFoundError sid)"
    by (cases "delete_states ds (state_ids e)") (simp add: delete_def)
  then show "\<exists>sid. fst (delete ds e) = Inl (EntityNotFoundError sid)" ..
  from f show "explorations (snd (delete ds e)) = explorations ds"
    using delete_states_explorations [of ds "state_ids e"]
    by (cases "delete_states ds (state_ids e)") (simp add: delete_def)
qed

theorem delete_spec_witness:
  "delete ex_datastore ex_exploration = (Inr (), \<lparr>states = Map.empty, explorations = []\<rparr>) \<and>
   (\<exists>sid. fst (delete stale_datastore stale_exploration) = Inl (EntityNotFoundError sid)) \<and>
   explorations (snd (delete stale_datastore stale_exploration)) = [stale_exploration]"
proof -
  have "delete ex_datastore ex_exploration =
        (Inr (),
         ex_datastore\<lparr>states := (\<lambda>k. if k \<in> set (state_ids ex_exploration) then None
              else states ex_datastore k),
            explorations := filter (\<lambda>x. exp_id x \<noteq> exp_id ex_exploration)
              (explorations ex_datastore)\<rparr>)"
    using delete_spec [of ex_exploration ex_datastore] by (simp add: ex_defs)
  moreover have "(\<lambda>k. if k \<in> set (state_ids ex_exploration) then None
              else states ex_datastore k) = Map.empty"
    by (rule ext) (simp add: ex_defs)
  ultimately have a: "delete ex_datastore ex_exploration
      = (Inr (), \<lparr>states = Map.empty, explorations = []\<rparr>)"
    by (simp add: ex_defs)
  have b: "(\<exists>sid. fst (delete stale_datastore stale_exploration) = Inl (EntityNotFoundError sid)) \<and>
      explorations (snd (delete stale_datastore stale_exploration)) = explorations stale_datastore"
    using delete_spec [of stale_exploration stale_datastore]
    by (simp add: stale_datastore_def stale_exploration_def ex_defs)
  show ?thesis using a b by (simp add: stale_datastore_def)
qed

section \<open>Queries and rights\<close>

text \<open>
  Claim C6. \<^verbatim>\<open>get_public_explorations\<close> returns exactly the explorations, among all
  explorations, whose \<^verbatim>\<open>is_public\<close> flag is \<^verbatim>\<open>True\<close>.
\<close>

theorem get_public_explorations_exact:
  "e \<in> set (get_public_explorations ds) \<longleftrightarrow>
     e \<in> set (get_all_explorations ds) \<and> is_public e = True"
  by (simp add: get_public_explorations_def)

theorem get_public_explorations_exact_witness:
  "public_exploration \<in> set (get_public_explorations two_datastore) \<and>
   ex_exploration \<notin> set (get_public_explorations two_datastore)"
proof -
  have all: "set (get_all_explorations two_datastore) = {ex_exploration, public_exploration}"
    by (simp add: get_all_explorations_def two_datastore_def)
  have pub: "is_public public_exploration" "\<not> is_public ex_exploration"
    by (simp_all add: public_exploration_def ex_exploration_def)
  show ?thesis
    using get_public_explorations_exact [of public_exploration two_datastore]
      get_public_explorations_exact [of ex_exploration two_datastore]
    by (simp add: all pub)
qed

text \<open>
  Claim C7. \<^verbatim>\<open>get_viewable_explorations(user)\<close> returns exactly the explorations that are
  public or list the user among their editors.
\<close>

theorem get_viewable_explorations_exact:
  "e \<in> set (get_viewable_explorations ds u) \<longleftrightarrow>
     e \<in> set (get_all_explorations ds) \<and>
     (is_public e = True \<or> (\<exists>x. u = Some x \<and> x \<in> set (editors e)))"
  by (auto simp: get_viewable_explorations_def editors_eq_def split: option.splits)

theorem get_viewable_explorations_exact_witness:
  "ex_exploration \<in> set (get_viewable_explorations two_datastore (Some (User ''ann@example.org''))) \<and>
   public_exploration \<in> set (get_viewable_explorations two_datastore (Some (User ''ann@example.org''))) \<and>
   ex_exploration \<notin> set (get_viewable_explorations two_datastore (Some (User ''bob@example.org''))) \<and>
   public_exploration \<in> set (get_viewable_explorations two_datastore None) \<and>
   ex_exploration \<notin> set (get_viewable_explorations two_datastore None)"
proof -
  have all: "set (get_all_explorations two_datastore) = {ex_exploration, public_exploration}"
    by (simp add: get_all_explorations_def two_datastore_def)
  have pub: "is_public public_exploration" "\<not> is_public ex_exploration"
    by (simp_all add: public_exploration_def ex_exploration_def)
  have ed: "editors ex_exploration = [User ''ann@example.org'']"
    by (simp add: ex_exploration_def)
  show ?thesis
    using get_viewable_explorations_exact [of ex_exploration two_datastore "Some (User ''ann@example.org'')"]
      get_viewable_explorations_exact [of public_exploration two_datastore "Some (User ''ann@example.org'')"]
      get_viewable_explorations_exact [of ex_exploration two_datastore "Some (User ''bob@example.org'')"]
      get_viewable_explorations_exact [of public_exploration two_datastore None]
      get_viewable_explorations_exact [of ex_exploration two_datastore None]
    by (simp add: all pub ed)
qed

text \<open>
  Claim C8. On an exploration with a non-empty editors list, \<^verbatim>\<open>is_owned_by(user)\<close>
  returns, and its value is truthy exactly when the user is not \<^verbatim>\<open>None\<close> and equals the
  first editor.
\<close>

theorem is_owned_by_first_editor:
  "editors e \<noteq> [] \<Longrightarrow>
     \<exists>v. is_owned_by e u = Inr v \<and> (truthy v \<longleftrightarrow> (\<exists>x. u = Some x \<and> x = hd (editors e)))"
  by (cases "editors e") (auto simp: is_owned_by_def split: option.splits)

theorem is_owned_by_first_editor_witness:
  "editors ex_exploration \<noteq> [] \<and>
   (\<exists>v. is_owned_by ex_exploration (Some (User ''ann@example.org'')) = Inr v \<and> truthy v) \<and>
   (\<exists>v. is_owned_by ex_exploration (Some (User ''bob@example.org'')) = Inr v \<and> \<not> truthy v) \<and>
   (\<exists>v. is_owned_by ex_exploration None = Inr v \<and> \<not> truthy v)"
proof -
  have h: "editors ex_exploration \<noteq> []" by (simp add: ex_defs)
  show ?thesis
    using h is_owned_by_first_editor [OF h, of "Some (User ''ann@example.org'')"]
      is_owned_by_first_editor [OF h, of "Some (User ''bob@example.org'')"]
      is_owned_by_first_editor [OF h, of None]
    by (simp add: ex_defs)
qed

text \<open>
  Claim C9. \<^verbatim>\<open>is_owned_by\<close> raises \<^verbatim>\<open>IndexError\<close> when the editors list is empty and the
  user is not \<^verbatim>\<open>None\<close>; \<^verbatim>\<open>is_editable_by\<close> always returns, with a falsy value for \<^verbatim>\<open>None\<close>
  and for a user who is not among the editors.
\<close>

theorem is_owned_by_partial:
  "(editors e = [] \<longrightarrow> is_owned_by e (Some x) = Inl IndexError) \<and>
   (\<exists>v. is_editable_by e u = Inr v \<and>
      (u = None \<or> (\<exists>y. u = Some y \<and> y \<notin> set (editors e)) \<longrightarrow> \<not> truthy v))"
  by (auto simp: is_owned_by_def is_editable_by_def split: option.splits)

theorem is_owned_by_partial_witness:
  "editors public_exploration = [] \<and>
   is_owned_by public_exploration (Some (User ''ann@example.org'')) = Inl IndexError \<and>
   (\<exists>v. is_editable_by public_exploration (Some (User ''ann@example.org'')) = Inr v \<and> \<not> truthy v) \<and>
   (\<exists>v. is_editable_by ex_exploration None = Inr v \<and> \<not> truthy v)"
  using is_owned_by_partial [of public_exploration "User ''ann@example.org''" "Some (User ''ann@example.org'')"]
    is_owned_by_partial [of ex_exploration "User ''ann@example.org''" None]
  by (simp add: public_exploration_def)

text \<open>
  Claim C10. \<^verbatim>\<open>add_editor\<close> appends the editor at the end of the editors list, leaves
  every other field of the exploration as it was, and leaves the datastore as it was.
\<close>

theorem add_editor_frame:
  "editors (fst (add_editor ds e editor)) = editors e @ [editor] \<and>
   exp_id (fst (add_editor ds e editor)) = exp_id e \<and>
   category (fst (add_editor ds e editor)) = category e \<and>
   title (fst (add_editor ds e editor)) = title e \<and>
   state_ids (fst (add_editor ds e editor)) = state_ids e \<and>
   parameters (fst (add_editor ds e editor)) = parameters e \<and>
   is_public (fst (add_editor ds e editor)) = is_public e \<and>
   image_id (fst (add_editor ds e editor)) = image_id e \<and>
   snd (add_editor ds e editor) = ds"
  by (simp add: add_editor_def)

theorem add_editor_frame_witness:
  "add_editor ex_datastore ex_exploration (User ''bob@example.org'')
     = (ex_exploration\<lparr>editors := [User ''ann@example.org'', User ''bob@example.org'']\<rparr>,
        ex_datastore)"
proof -
  have "fst (add_editor ex_datastore ex_exploration (User ''bob@example.org''))
      = ex_exploration\<lparr>editors := [User ''ann@example.org'', User ''bob@example.org'']\<rparr>"
    using add_editor_frame [of ex_datastore ex_exploration "User ''bob@example.org''"]
    by (intro exploration.equality) (simp_all add: ex_exploration_def)
  moreover have "snd (add_editor ex_datastore ex_exploration (User ''bob@example.org'')) = ex_datastore"
    using add_editor_frame [of ex_datastore ex_exploration "User ''bob@example.org''"] by simp
  ultimately show ?thesis by (simp add: prod_eq_iff)
qed

end
